theory Spec2Isabelle
  imports Complex_Main "HOL-Library.Product_Lexorder"
begin

section \<open>JavaScript numbers\<close>

text \<open>
  The source computes on JavaScript numbers. They are modelled as the reals extended
  with the three non-finite values of IEEE 754, so that a division by zero, a product
  \<open>0 * Infinity\<close> and a comparison with \<open>NaN\<close> are what they are in the
  program and not what they are in HOL (where \<open>x / 0 = 0\<close>). Two things are idealised:
  finite results are exact (no rounding, no overflow to infinity), and there is one zero
  (a quotient \<open>x / 0\<close> with \<open>x \<noteq> 0\<close> takes the sign of \<open>x\<close>, as it
  does for the positive zero).
\<close>

datatype jsnum = Num real | PInf | NInf | NaN

definition signed_inf :: "real \<Rightarrow> jsnum" where
  "signed_inf s = (if 0 < s then PInf else if s < 0 then NInf else NaN)"

fun js_neg :: "jsnum \<Rightarrow> jsnum" where
  "js_neg (Num a) = Num (- a)"
| "js_neg PInf = NInf"
| "js_neg NInf = PInf"
| "js_neg NaN = NaN"

fun js_add :: "jsnum \<Rightarrow> jsnum \<Rightarrow> jsnum" where
  "js_add (Num a) (Num b) = Num (a + b)"
| "js_add NaN _ = NaN"
| "js_add _ NaN = NaN"
| "js_add PInf NInf = NaN"
| "js_add NInf PInf = NaN"
| "js_add PInf _ = PInf"
| "js_add _ PInf = PInf"
| "js_add NInf _ = NInf"
| "js_add _ NInf = NInf"

definition js_sub :: "jsnum \<Rightarrow> jsnum \<Rightarrow> jsnum" where
  "js_sub a b = js_add a (js_neg b)"

fun js_mul :: "jsnum \<Rightarrow> jsnum \<Rightarrow> jsnum" where
  "js_mul (Num a) (Num b) = Num (a * b)"
| "js_mul NaN _ = NaN"
| "js_mul _ NaN = NaN"
| "js_mul (Num a) PInf = signed_inf a"
| "js_mul (Num a) NInf = signed_inf (- a)"
| "js_mul PInf (Num b) = signed_inf b"
| "js_mul NInf (Num b) = signed_inf (- b)"
| "js_mul PInf PInf = PInf"
| "js_mul NInf NInf = PInf"
| "js_mul PInf NInf = NInf"
| "js_mul NInf PInf = NInf"

fun js_div :: "jsnum \<Rightarrow> jsnum \<Rightarrow> jsnum" where
  "js_div (Num a) (Num b) = (if b = 0 then signed_inf a else Num (a / b))"
| "js_div NaN _ = NaN"
| "js_div _ NaN = NaN"
| "js_div (Num a) _ = Num 0"
| "js_div PInf (Num b) = (if 0 \<le> b then PInf else NInf)"
| "js_div NInf (Num b) = (if 0 \<le> b then NInf else PInf)"
| "js_div _ _ = NaN"

text \<open>\<open>a > b\<close>: false as soon as one side is \<open>NaN\<close>.\<close>

fun js_gt :: "jsnum \<Rightarrow> jsnum \<Rightarrow> bool" where
  "js_gt (Num a) (Num b) = (b < a)"
| "js_gt NaN _ = False"
| "js_gt _ NaN = False"
| "js_gt PInf PInf = False"
| "js_gt PInf _ = True"
| "js_gt NInf _ = False"
| "js_gt _ NInf = True"
| "js_gt _ PInf = False"

text \<open>\<open>a <= b\<close> and \<open>a === b\<close> on numbers.\<close>

fun js_le :: "jsnum \<Rightarrow> jsnum \<Rightarrow> bool" where
  "js_le (Num a) (Num b) = (a \<le> b)"
| "js_le NaN _ = False"
| "js_le _ NaN = False"
| "js_le NInf _ = True"
| "js_le _ PInf = True"
| "js_le _ _ = False"

fun js_eq :: "jsnum \<Rightarrow> jsnum \<Rightarrow> bool" where
  "js_eq NaN _ = False"
| "js_eq _ NaN = False"
| "js_eq a b = (a = b)"

text \<open>\<open>Math.max(a, b)\<close> and \<open>Math.min(a, b)\<close>, then their variadic forms:
  \<open>Math.max()\<close> is \<open>-Infinity\<close>, and one \<open>NaN\<close> argument makes the result
  \<open>NaN\<close>.\<close>

definition js_max2 :: "jsnum \<Rightarrow> jsnum \<Rightarrow> jsnum" where
  "js_max2 a b = (if a = NaN \<or> b = NaN then NaN else if js_gt b a then b else a)"

definition js_min2 :: "jsnum \<Rightarrow> jsnum \<Rightarrow> jsnum" where
  "js_min2 a b = (if a = NaN \<or> b = NaN then NaN else if js_gt a b then b else a)"

definition Math_max :: "jsnum list \<Rightarrow> jsnum" where
  "Math_max xs = foldl js_max2 NInf xs"

definition Math_min :: "jsnum list \<Rightarrow> jsnum" where
  "Math_min xs = foldl js_min2 PInf xs"

section \<open>Intersection over union\<close>

type_synonym bbox = "jsnum \<times> jsnum \<times> jsnum \<times> jsnum"

definition calculateIOU :: "bbox \<Rightarrow> bbox \<Rightarrow> jsnum" where
  "calculateIOU box1 box2 =
     (case box1 of (x1, y1, x2, y2) \<Rightarrow>
      case box2 of (X1, Y1, X2, Y2) \<Rightarrow>
        let xi1 = Math_max [x1, X1];
            yi1 = Math_max [y1, Y1];
            xi2 = Math_min [x2, X2];
            yi2 = Math_min [y2, Y2];
            interArea = js_mul (Math_max [Num 0, js_sub xi2 xi1]) (Math_max [Num 0, js_sub yi2 yi1]);
            box1Area = js_mul (js_sub x2 x1) (js_sub y2 y1);
            box2Area = js_mul (js_sub X2 X1) (js_sub Y2 Y1)
        in js_div interArea (js_sub (js_add box1Area box2Area) interArea))"

section \<open>Non-maximum suppression\<close>

text \<open>
  \<open>Array.prototype.sort\<close> with a comparator. The sort is stable, and for a comparator
  that orders its arguments consistently its result is the one stable ordering, which
  insertion from the right computes. A comparator value \<open>v > 0\<close> puts \<open>a\<close> after
  \<open>b\<close>; a negative value, zero and \<open>NaN\<close> (read as zero) leave \<open>a\<close> before
  \<open>b\<close>. With a \<open>NaN\<close> among the confidences the comparator below is not
  consistent and ECMAScript leaves the order to the implementation: the statements on
  sorting below are about lists without \<open>NaN\<close>.
\<close>

fun sort_insert :: "('a \<Rightarrow> 'a \<Rightarrow> jsnum) \<Rightarrow> 'a \<Rightarrow> 'a list \<Rightarrow> 'a list" where
  "sort_insert cmp a [] = [a]"
| "sort_insert cmp a (b # bs) =
     (if js_gt (cmp a b) (Num 0) then b # sort_insert cmp a bs else a # b # bs)"

definition Array_sort :: "('a \<Rightarrow> 'a \<Rightarrow> jsnum) \<Rightarrow> 'a list \<Rightarrow> 'a list" where
  "Array_sort cmp xs = foldr (sort_insert cmp) xs []"

record item =
  conf :: jsnum
  idx :: nat

text \<open>\<open>(a, b) => b.conf - a.conf\<close>\<close>

definition compareFn :: "item \<Rightarrow> item \<Rightarrow> jsnum" where
  "compareFn a b = js_sub (conf b) (conf a)"

record selection =
  box :: bbox
  confidence :: jsnum
  originalIndex :: nat

text \<open>
  The two loops of \<open>nonMaxSuppression\<close> run over the sorted indices: the outer one
  over all of them, the inner one over those after the current position. Both are
  recursions over the rest of the index list, with the array \<open>suppressed\<close> passed
  along. The function is private to its module and its one caller passes two arrays of
  the same length, so every index read here is in range (lemma
  \<open>nms_indices_in_range\<close>); the statements on it assume the two lengths equal.
\<close>

fun suppress_later :: "bbox list \<Rightarrow> jsnum \<Rightarrow> nat \<Rightarrow> nat list \<Rightarrow> bool list \<Rightarrow> bool list" where
  "suppress_later boxes iouThreshold i [] suppressed = suppressed"
| "suppress_later boxes iouThreshold i (nextIdx # js) suppressed =
     (if suppressed ! nextIdx then suppress_later boxes iouThreshold i js suppressed
      else let iou = calculateIOU (boxes ! i) (boxes ! nextIdx)
           in if js_gt iou iouThreshold
              then suppress_later boxes iouThreshold i js (suppressed[nextIdx := True])
              else suppress_later boxes iouThreshold i js suppressed)"

fun select_loop ::
  "bbox list \<Rightarrow> jsnum list \<Rightarrow> jsnum \<Rightarrow> nat list \<Rightarrow> bool list \<Rightarrow> selection list" where
  "select_loop boxes confidences iouThreshold [] suppressed = []"
| "select_loop boxes confidences iouThreshold (i # rest) suppressed =
     (if suppressed ! i then select_loop boxes confidences iouThreshold rest suppressed
      else \<lparr>box = boxes ! i, confidence = confidences ! i, originalIndex = i\<rparr>
           # select_loop boxes confidences iouThreshold rest
               (suppress_later boxes iouThreshold i rest suppressed))"

definition sorted_indices :: "jsnum list \<Rightarrow> nat list" where
  "sorted_indices confidences =
     map idx (Array_sort compareFn
       (map (\<lambda>(c, k). \<lparr>conf = c, idx = k\<rparr>) (zip confidences [0..<length confidences])))"

definition nonMaxSuppression :: "bbox list \<Rightarrow> jsnum list \<Rightarrow> jsnum \<Rightarrow> selection list" where
  "nonMaxSuppression boxes confidences iouThreshold =
     (if length boxes = 0 then []
      else select_loop boxes confidences iouThreshold (sorted_indices confidences)
             (replicate (length boxes) False))"

section \<open>Parsing the output tensor\<close>

definition CLASS_LABELS :: "string list" where
  "CLASS_LABELS =
    [''person'', ''bicycle'', ''car'', ''motorcycle'', ''airplane'', ''bus'', ''train'', ''truck'',
     ''boat'', ''traffic light'', ''fire hydrant'', ''stop sign'', ''parking meter'', ''bench'',
     ''bird'', ''cat'', ''dog'', ''horse'', ''sheep'', ''cow'', ''elephant'', ''bear'', ''zebra'',
     ''giraffe'', ''backpack'', ''umbrella'', ''handbag'', ''tie'', ''suitcase'', ''frisbee'',
     ''skis'', ''snowboard'', ''sports ball'', ''kite'', ''baseball bat'', ''baseball glove'',
     ''skateboard'', ''surfboard'', ''tennis racket'', ''bottle'', ''wine glass'', ''cup'', ''fork'',
     ''knife'', ''spoon'', ''bowl'', ''banana'', ''apple'', ''sandwich'', ''orange'', ''broccoli'',
     ''carrot'', ''hot dog'', ''pizza'', ''donut'', ''cake'', ''chair'', ''couch'', ''potted plant'',
     ''bed'', ''dining table'', ''toilet'', ''tv'', ''laptop'', ''mouse'', ''remote'', ''keyboard'',
     ''cell phone'', ''microwave'', ''oven'', ''toaster'', ''sink'', ''refrigerator'', ''book'',
     ''clock'', ''vase'', ''scissors'', ''teddy bear'', ''hair drier'', ''toothbrush'']"

record Detection =
  box :: bbox
  confidence :: jsnum
  classId :: int

text \<open>
  Reading an array: \<open>xs[i]\<close> is \<open>undefined\<close> (here \<open>None\<close>) when \<open>i\<close> is not
  an index of \<open>xs\<close>, \<open>-1\<close> included; a destructuring pattern reads positions the
  same way. In arithmetic \<open>undefined\<close> is \<open>NaN\<close>.
\<close>

definition array_get :: "'a list \<Rightarrow> int \<Rightarrow> 'a option" where
  "array_get xs i = (if 0 \<le> i \<and> nat i < length xs then Some (xs ! nat i) else None)"

definition ToNumber :: "jsnum option \<Rightarrow> jsnum" where
  "ToNumber v = (case v of None \<Rightarrow> NaN | Some x \<Rightarrow> x)"

text \<open>\<open>xs.indexOf(v)\<close>: the first position whose element is strictly equal to \<open>v\<close>,
  or \<open>-1\<close>.\<close>

fun indexOf_from :: "jsnum list \<Rightarrow> jsnum \<Rightarrow> int \<Rightarrow> int" where
  "indexOf_from [] v k = - 1"
| "indexOf_from (x # xs) v k = (if js_eq x v then k else indexOf_from xs v (k + 1))"

definition indexOf :: "jsnum list \<Rightarrow> jsnum \<Rightarrow> int" where
  "indexOf xs v = indexOf_from xs v 0"

definition numValuesPerPrediction :: nat where
  "numValuesPerPrediction = 84"

text \<open>\<open>data.slice(offset, offset + numValuesPerPrediction)\<close>: shorter than 84 values when
  the tensor ends before.\<close>

definition predictionSlice :: "jsnum list \<Rightarrow> nat \<Rightarrow> jsnum list" where
  "predictionSlice data i =
     (let offset = i * numValuesPerPrediction in take numValuesPerPrediction (drop offset data))"

text \<open>The scorer: the first lines of the loop body, up to the test.\<close>

definition class_confs_of :: "jsnum list \<Rightarrow> jsnum list" where
  "class_confs_of slice = drop 5 slice"

definition classId_of :: "jsnum list \<Rightarrow> int" where
  "classId_of slice = (let class_confs = class_confs_of slice in indexOf class_confs (Math_max class_confs))"

definition totalConfidence_of :: "jsnum list \<Rightarrow> jsnum" where
  "totalConfidence_of slice =
     (let obj_conf = array_get slice 4;
          class_confs = class_confs_of slice;
          classId = classId_of slice;
          classConfidence = array_get class_confs classId
      in js_mul (ToNumber obj_conf) (ToNumber classConfidence))"

text \<open>The coordinate mapper: the body of the conditional, as the source has it (the
  second y-corner adds \<open>h_norm / 2\<close>).\<close>

definition map_box :: "jsnum list \<Rightarrow> jsnum \<Rightarrow> jsnum \<Rightarrow> jsnum \<Rightarrow> bbox" where
  "map_box slice originalWidth originalHeight modelInputSize =
     (let x_center_norm = ToNumber (array_get slice 0);
          y_center_norm = ToNumber (array_get slice 1);
          w_norm = ToNumber (array_get slice 2);
          h_norm = ToNumber (array_get slice 3);
          x_center_model = js_mul x_center_norm modelInputSize;
          y_center_model = js_mul y_center_norm modelInputSize;
          w_model = js_mul w_norm modelInputSize;
          h_model = js_mul h_norm modelInputSize;
          x1_model = js_sub x_center_model (js_div w_model (Num 2));
          y1_model = js_sub y_center_model (js_div h_model (Num 2));
          x2_model = js_add x_center_model (js_div w_model (Num 2));
          y2_model = js_add y_center_model (js_div h_norm (Num 2));
          scaleX = js_div originalWidth modelInputSize;
          scaleY = js_div originalHeight modelInputSize;
          x1_orig = js_mul x1_model scaleX;
          y1_orig = js_mul y1_model scaleY;
          x2_orig = js_mul x2_model scaleX;
          y2_orig = js_mul y2_model scaleY
      in (x1_orig, y1_orig, x2_orig, y2_orig))"

text \<open>One pass of the loop body on the record at position \<open>i\<close>: what is pushed on the
  three arrays, if anything.\<close>

definition candidate ::
  "jsnum list \<Rightarrow> jsnum \<Rightarrow> jsnum \<Rightarrow> jsnum \<Rightarrow> jsnum \<Rightarrow> nat \<Rightarrow> (bbox \<times> jsnum \<times> int) option" where
  "candidate data originalWidth originalHeight confidenceThreshold modelInputSize i =
     (let slice = predictionSlice data i;
          classId = classId_of slice;
          totalConfidence = totalConfidence_of slice
      in if js_gt totalConfidence confidenceThreshold \<and> array_get CLASS_LABELS classId = Some ''person''
         then Some (map_box slice originalWidth originalHeight modelInputSize, totalConfidence, classId)
         else None)"

text \<open>The loop \<open>for (let i = 0; i < numPredictions; i++)\<close>, where
  \<open>numPredictions = data.length / 84\<close> is a quotient of numbers, not of integers.\<close>

function parse_loop ::
  "jsnum list \<Rightarrow> jsnum \<Rightarrow> jsnum \<Rightarrow> jsnum \<Rightarrow> jsnum \<Rightarrow> nat
     \<Rightarrow> bbox list \<times> jsnum list \<times> int list \<Rightarrow> bbox list \<times> jsnum list \<times> int list" where
  "parse_loop data originalWidth originalHeight confidenceThreshold modelInputSize i (boxes, confidences, classIds) =
     (if real i < real (length data) / real numValuesPerPrediction
      then (case candidate data originalWidth originalHeight confidenceThreshold modelInputSize i of
              Some (b, c, k) \<Rightarrow>
                parse_loop data originalWidth originalHeight confidenceThreshold modelInputSize (i + 1)
                  (boxes @ [b], confidences @ [c], classIds @ [k])
            | None \<Rightarrow>
                parse_loop data originalWidth originalHeight confidenceThreshold modelInputSize (i + 1)
                  (boxes, confidences, classIds))
      else (boxes, confidences, classIds))"
  by pat_completeness auto
termination
  by (relation "measure (\<lambda>(data, w, h, t, m, i, acc). length data - i * numValuesPerPrediction)")
     (auto simp: numValuesPerPrediction_def field_simps)

text \<open>
  The function itself. Its last three parameters have defaults in the source
  (\<open>0.25\<close>, \<open>0.45\<close>, \<open>640\<close>); here every call passes them. The three arrays
  grow together, so \<open>classIds[item.originalIndex]\<close> reads an index that is in range
  (lemmas \<open>nms_indices_in_range\<close> and \<open>detection_origin\<close>).
\<close>

definition parseYOLOv8Output ::
  "jsnum list \<Rightarrow> jsnum \<Rightarrow> jsnum \<Rightarrow> jsnum \<Rightarrow> jsnum \<Rightarrow> jsnum \<Rightarrow> Detection list" where
  "parseYOLOv8Output outputTensor originalWidth originalHeight confidenceThreshold iouThreshold modelInputSize =
     (case parse_loop outputTensor originalWidth originalHeight confidenceThreshold modelInputSize 0 ([], [], []) of
        (boxes, confidences, classIds) \<Rightarrow>
          let filteredIndices = nonMaxSuppression boxes confidences iouThreshold
          in map (\<lambda>item. \<lparr>box = selection.box item, confidence = selection.confidence item,
                           classId = classIds ! originalIndex item\<rparr>) filteredIndices)"

declare parse_loop.simps [simp del]

section \<open>Notions used in the statements and proofs\<close>

text \<open>
  Greedy selection along a list: keep the head, drop from the rest what the head
  suppresses, go on. The two loops of \<open>nonMaxSuppression\<close> compute it over the sorted
  indices (lemma \<open>select_loop_greedy\<close>).
\<close>

function greedy :: "('a \<Rightarrow> 'a \<Rightarrow> bool) \<Rightarrow> 'a list \<Rightarrow> 'a list" where
  "greedy R [] = []"
| "greedy R (x # xs) = x # greedy R (filter (\<lambda>y. \<not> R x y) xs)"
  by pat_completeness auto
termination
  by (relation "measure (\<lambda>(R, xs). length xs)") (auto simp: less_Suc_eq_le)

text \<open>
  A key that orders the confidences as the comparator \<open>b.conf - a.conf\<close> does: the
  larger confidence has the smaller key.
\<close>

fun conf_key :: "jsnum \<Rightarrow> int \<times> real" where
  "conf_key PInf = (- 1, 0)"
| "conf_key (Num r) = (0, - r)"
| "conf_key NInf = (1, 0)"
| "conf_key NaN = (2, 0)"

text \<open>The test \<open>iou > iouThreshold\<close> of the inner loop, on two boxes each paired with
  its confidence.\<close>

definition overlaps :: "jsnum \<Rightarrow> bbox \<times> jsnum \<Rightarrow> bbox \<times> jsnum \<Rightarrow> bool" where
  "overlaps iouThreshold p q = js_gt (calculateIOU (fst p) (fst q)) iouThreshold"

text \<open>The same test on two indices, and the entry that the outer loop pushes for an
  index.\<close>

definition overlaps_at :: "bbox list \<Rightarrow> jsnum \<Rightarrow> nat \<Rightarrow> nat \<Rightarrow> bool" where
  "overlaps_at boxes iouThreshold i j = js_gt (calculateIOU (boxes ! i) (boxes ! j)) iouThreshold"

definition select :: "bbox list \<Rightarrow> jsnum list \<Rightarrow> nat \<Rightarrow> selection" where
  "select boxes confidences i =
     \<lparr>selection.box = boxes ! i, selection.confidence = confidences ! i, originalIndex = i\<rparr>"

text \<open>The boxes and confidences that \<open>nonMaxSuppression\<close> selected, in order.\<close>

definition selected_pairs :: "selection list \<Rightarrow> (bbox \<times> jsnum) list" where
  "selected_pairs sel = map (\<lambda>s. (selection.box s, selection.confidence s)) sel"

text \<open>
  The number of passes of the loop of \<open>parseYOLOv8Output\<close>, the test of its loop body
  at record \<open>i\<close>, and what the body pushes when the test succeeds.
\<close>

definition numRecords :: "jsnum list \<Rightarrow> nat" where
  "numRecords data = (length data + 83) div 84"

definition passes :: "jsnum list \<Rightarrow> jsnum \<Rightarrow> nat \<Rightarrow> bool" where
  "passes data confidenceThreshold i =
     (js_gt (totalConfidence_of (predictionSlice data i)) confidenceThreshold
      \<and> array_get CLASS_LABELS (classId_of (predictionSlice data i)) = Some ''person'')"

definition scored :: "jsnum list \<Rightarrow> jsnum \<Rightarrow> jsnum \<Rightarrow> jsnum \<Rightarrow> nat \<Rightarrow> bbox \<times> jsnum \<times> int" where
  "scored data originalWidth originalHeight modelInputSize i =
     (map_box (predictionSlice data i) originalWidth originalHeight modelInputSize,
      totalConfidence_of (predictionSlice data i),
      classId_of (predictionSlice data i))"

definition candidates ::
  "jsnum list \<Rightarrow> jsnum \<Rightarrow> jsnum \<Rightarrow> jsnum \<Rightarrow> jsnum \<Rightarrow> (bbox \<times> jsnum \<times> int) list" where
  "candidates data originalWidth originalHeight confidenceThreshold modelInputSize =
     map (scored data originalWidth originalHeight modelInputSize)
       (filter (passes data confidenceThreshold) [0..<numRecords data])"

text \<open>The boxes and confidences handed to \<open>nonMaxSuppression\<close>, paired.\<close>

definition candidate_pairs ::
  "jsnum list \<Rightarrow> jsnum \<Rightarrow> jsnum \<Rightarrow> jsnum \<Rightarrow> jsnum \<Rightarrow> (bbox \<times> jsnum) list" where
  "candidate_pairs data originalWidth originalHeight confidenceThreshold modelInputSize =
     map (\<lambda>c. (fst c, fst (snd c)))
       (candidates data originalWidth originalHeight confidenceThreshold modelInputSize)"


section \<open>Properties of the intersection over union\<close>










section \<open>The coordinate mapper at the scenario of the specification\<close>

text \<open>
  C1. The specification's scenario is one record centred at \<open>(0.5, 0.5)\<close> of size
  \<open>(0.2, 0.2)\<close>, with objectness 1 and class score 1 for class 0, on a 1280 by 960
  image with model input size 640; the claim expects the box \<open>[512, 384, 768, 576]\<close>.
  The code adds \<open>h_norm / 2\<close> where the claim has \<open>h_px / 2\<close>, so the second
  y-corner in model space is \<open>320.1\<close> and not \<open>384\<close>, and the box returned is
  \<open>[512, 384, 768, 480.15]\<close>. The second conjunct is the same record with size
  \<open>(0.25, 0.25)\<close>, all of whose values are binary fractions: the claim's formula gives
  \<open>[480, 360, 800, 600]\<close>, the code \<open>[480, 360, 800, 480.1875]\<close>.
\<close>

theorem parseYOLOv8Output_y2_scenario:
  "parseYOLOv8Output
     ([Num (1 / 2), Num (1 / 2), Num (2 / 10), Num (2 / 10), Num 1, Num 1] @ replicate 78 (Num 0))
     (Num 1280) (Num 960) (Num (25 / 100)) (Num (45 / 100)) (Num 640)
   = [\<lparr>box = (Num 512, Num 384, Num 768, Num (48015 / 100)), confidence = Num 1, classId = 0\<rparr>]
   \<and>
   parseYOLOv8Output
     ([Num (1 / 2), Num (1 / 2), Num (1 / 4), Num (1 / 4), Num 1, Num 1] @ replicate 78 (Num 0))
     (Num 1280) (Num 960) (Num (25 / 100)) (Num (45 / 100)) (Num 640)
   = [\<lparr>box = (Num 480, Num 360, Num 800, Num (4801875 / 10000)), confidence = Num 1, classId = 0\<rparr>]"
  by code_simp

section \<open>Greedy selection and sorting\<close>

lemma set_greedy: "set (greedy R xs) \<subseteq> set xs"
proof (induction R xs rule: greedy.induct)
  case (1 R)
  show ?case by simp
next
  case (2 R x xs)
  then show ?case by auto
qed

lemma length_greedy_le: "length (greedy R xs) \<le> length xs"
proof (induction R xs rule: greedy.induct)
  case (1 R)
  show ?case by simp
next
  case (2 R x xs)
  have "length (filter (\<lambda>y. \<not> R x y) xs) \<le> length xs" by simp
  with 2 have "length (greedy R (filter (\<lambda>y. \<not> R x y) xs)) \<le> length xs" by (rule order_trans)
  then show ?case by simp
qed

lemma greedy_append: "\<exists>zs. greedy R (xs @ ys) = greedy R xs @ zs"
proof (induction R xs arbitrary: ys rule: greedy.induct)
  case (1 R)
  show ?case by simp
next
  case (2 R x xs)
  from 2 [of "filter (\<lambda>y. \<not> R x y) ys"] show ?case by simp
qed

lemma length_greedy_takeWhile: "length (greedy R (takeWhile P xs)) \<le> length (greedy R xs)"
proof -
  obtain zs where "greedy R (takeWhile P xs @ dropWhile P xs) = greedy R (takeWhile P xs) @ zs"
    using greedy_append by blast
  then have "greedy R xs = greedy R (takeWhile P xs) @ zs" by simp
  then show ?thesis by simp
qed



lemma greedy_map:
  "\<forall>x y. R' x y = R (f x) (f y) \<Longrightarrow> map f (greedy R' xs) = greedy R (map f xs)"
proof (induction R' xs rule: greedy.induct)
  case (1 R')
  show ?case by simp
next
  case (2 R' x xs)
  have "filter (\<lambda>y. \<not> R (f x) y) (map f xs) = map f (filter (\<lambda>y. \<not> R' x y) xs)"
    by (simp add: filter_map comp_def "2.prems")
  with 2 show ?case by simp
qed


subsection \<open>Sorting by the confidence key\<close>

lemma filter_takeWhile_sorted:
  assumes "sorted (map f xs)" and "\<And>x y. f x \<le> f y \<Longrightarrow> P y \<Longrightarrow> P x"
  shows "filter P xs = takeWhile P xs"
  using assms(1)
proof (induction xs)
  case Nil
  show ?case by simp
next
  case (Cons x xs)
  show ?case
  proof (cases "P x")
    case True
    with Cons show ?thesis by simp
  next
    case False
    have "\<forall>y \<in> set xs. \<not> P y"
    proof
      fix y assume "y \<in> set xs"
      with Cons.prems have "f x \<le> f y" by auto
      with False assms(2) show "\<not> P y" by blast
    qed
    then have "filter P xs = []" by (simp add: filter_empty_conv)
    with False show ?thesis by simp
  qed
qed

lemma insort_key_map: "insort_key f (g x) (map g xs) = map g (insort_key (\<lambda>x. f (g x)) x xs)"
  by (induction xs) auto

lemma sort_key_map: "sort_key f (map g xs) = map g (sort_key (\<lambda>x. f (g x)) xs)"
  by (induction xs) (auto simp: insort_key_map)

lemma conf_key_gt:
  "a \<noteq> NaN \<Longrightarrow> b \<noteq> NaN \<Longrightarrow> js_gt (js_sub b a) (Num 0) \<longleftrightarrow> conf_key b < conf_key a"
  by (cases a; cases b) (auto simp: js_sub_def)

lemma sort_insert_insort_key:
  assumes "conf a \<noteq> NaN" and "\<forall>b \<in> set bs. conf b \<noteq> NaN"
  shows "sort_insert compareFn a bs = insort_key (\<lambda>x. conf_key (conf x)) a bs"
  using assms(2)
  by (induction bs) (auto simp: compareFn_def conf_key_gt [OF assms(1)])

lemma Array_sort_sort_key:
  "\<forall>b \<in> set xs. conf b \<noteq> NaN \<Longrightarrow> Array_sort compareFn xs = sort_key (\<lambda>x. conf_key (conf x)) xs"
proof (induction xs)
  case Nil
  show ?case by (simp add: Array_sort_def)
next
  case (Cons a xs)
  then have IH: "Array_sort compareFn xs = sort_key (\<lambda>x. conf_key (conf x)) xs" by simp
  have "Array_sort compareFn (a # xs) = sort_insert compareFn a (Array_sort compareFn xs)"
    by (simp add: Array_sort_def)
  also have "\<dots> = sort_insert compareFn a (sort_key (\<lambda>x. conf_key (conf x)) xs)"
    by (simp only: IH)
  also have "\<dots> = insort_key (\<lambda>x. conf_key (conf x)) a (sort_key (\<lambda>x. conf_key (conf x)) xs)"
    using Cons.prems by (intro sort_insert_insort_key) auto
  finally show ?case by simp
qed

lemma set_sort_insert: "set (sort_insert cmp a bs) = insert a (set bs)"
  by (induction bs) auto

lemma set_Array_sort: "set (Array_sort cmp xs) = set xs"
  by (induction xs) (auto simp: Array_sort_def set_sort_insert)

section \<open>What the loops of non-maximum suppression compute\<close>

lemma length_suppress_later [simp]:
  "length (suppress_later boxes t i js suppressed) = length suppressed"
  by (induction js arbitrary: suppressed) (auto simp: Let_def)

lemma suppress_later_nth:
  "j < length suppressed \<Longrightarrow>
   suppress_later boxes t i js suppressed ! j
     = (suppressed ! j \<or> (j \<in> set js \<and> js_gt (calculateIOU (boxes ! i) (boxes ! j)) t))"
proof (induction js arbitrary: suppressed)
  case Nil
  show ?case by simp
next
  case (Cons n js)
  have upd: "suppressed[n := True] ! j = (j = n \<or> suppressed ! j)"
  proof (cases "n < length suppressed")
    case True
    then show ?thesis by (auto simp: nth_list_update)
  next
    case False
    with Cons.prems show ?thesis by (auto simp: list_update_beyond)
  qed
  show ?case
    using Cons.IH [of suppressed] Cons.IH [of "suppressed[n := True]"] Cons.prems upd
    by (auto simp: Let_def)
qed

lemma select_loop_greedy:
  "\<forall>i \<in> set is. i < length suppressed \<Longrightarrow>
   select_loop boxes confidences t is suppressed
     = map (select boxes confidences) (greedy (overlaps_at boxes t) (filter (\<lambda>i. \<not> suppressed ! i) is))"
proof (induction "is" arbitrary: suppressed)
  case Nil
  show ?case by simp
next
  case (Cons i rest)
  show ?case
  proof (cases "suppressed ! i")
    case True
    with Cons show ?thesis by simp
  next
    case False
    let ?s = "suppress_later boxes t i rest suppressed"
    have "\<forall>j \<in> set rest. j < length ?s" using Cons.prems by simp
    then have IH: "select_loop boxes confidences t rest ?s
        = map (select boxes confidences) (greedy (overlaps_at boxes t) (filter (\<lambda>j. \<not> ?s ! j) rest))"
      by (rule Cons.IH)
    have "filter (\<lambda>j. \<not> ?s ! j) rest
        = filter (\<lambda>j. \<not> overlaps_at boxes t i j) (filter (\<lambda>j. \<not> suppressed ! j) rest)"
      using Cons.prems by (auto simp: suppress_later_nth overlaps_at_def intro!: filter_cong)
    with IH False show ?thesis by (simp add: select_def)
  qed
qed

lemma items_eq:
  "map (\<lambda>(c, k). \<lparr>conf = c, idx = k\<rparr>) (zip confidences [0..<length confidences])
     = map (\<lambda>k. \<lparr>conf = confidences ! k, idx = k\<rparr>) [0..<length confidences]"
  by (rule nth_equalityI) auto

lemma set_sorted_indices: "set (sorted_indices confidences) = {0..<length confidences}"
proof -
  have "set (sorted_indices confidences)
      = idx ` (\<lambda>k. \<lparr>conf = confidences ! k, idx = k\<rparr>) ` {0..<length confidences}"
    by (simp add: sorted_indices_def items_eq set_Array_sort)
  also have "\<dots> = {0..<length confidences}" by (simp add: image_image)
  finally show ?thesis .
qed

lemma sorted_indices_sort_key:
  assumes "NaN \<notin> set confidences"
  shows "sorted_indices confidences
           = sort_key (\<lambda>k. conf_key (confidences ! k)) [0..<length confidences]"
proof -
  let ?mk = "\<lambda>k. \<lparr>conf = confidences ! k, idx = k\<rparr>"
  let ?n = "length confidences"
  have "\<forall>b \<in> set (map ?mk [0..<?n]). conf b \<noteq> NaN"
    using assms by (auto simp: in_set_conv_nth)
  then have "Array_sort compareFn (map ?mk [0..<?n]) = sort_key (\<lambda>x. conf_key (conf x)) (map ?mk [0..<?n])"
    by (rule Array_sort_sort_key)
  also have "\<dots> = map ?mk (sort_key (\<lambda>k. conf_key (confidences ! k)) [0..<?n])"
    by (simp add: sort_key_map)
  finally show ?thesis by (simp add: sorted_indices_def items_eq comp_def)
qed

lemma nonMaxSuppression_greedy_indices:
  assumes "length boxes = length confidences"
  shows "nonMaxSuppression boxes confidences t
           = map (select boxes confidences) (greedy (overlaps_at boxes t) (sorted_indices confidences))"
proof (cases "length boxes = 0")
  case True
  with assms show ?thesis by (simp add: nonMaxSuppression_def sorted_indices_def Array_sort_def)
next
  case False
  let ?sup = "replicate (length boxes) False"
  have r: "\<forall>i \<in> set (sorted_indices confidences). i < length ?sup"
    using assms by (simp add: set_sorted_indices)
  have "filter (\<lambda>i. \<not> ?sup ! i) (sorted_indices confidences) = sorted_indices confidences"
    using r by (auto intro!: filter_True)
  with select_loop_greedy [OF r, of boxes confidences t] False show ?thesis
    by (simp add: nonMaxSuppression_def)
qed

lemma nms_indices_in_range:
  assumes "length boxes = length confidences"
    and "s \<in> set (nonMaxSuppression boxes confidences t)"
  shows "originalIndex s < length confidences
         \<and> selection.box s = boxes ! originalIndex s
         \<and> selection.confidence s = confidences ! originalIndex s"
proof -
  from assms obtain i where i: "i \<in> set (greedy (overlaps_at boxes t) (sorted_indices confidences))"
    and s: "s = select boxes confidences i"
    by (auto simp: nonMaxSuppression_greedy_indices)
  from i set_greedy have "i \<in> set (sorted_indices confidences)" by fastforce
  then have "i < length confidences" by (simp add: set_sorted_indices)
  with s show ?thesis by (simp add: select_def)
qed

lemma zip_nth_map:
  "length xs = length ys \<Longrightarrow> map (\<lambda>k. (xs ! k, ys ! k)) [0..<length ys] = zip xs ys"
  by (rule nth_equalityI) auto

lemma selected_pairs_nonMaxSuppression:
  assumes len: "length boxes = length confidences" and nan: "NaN \<notin> set confidences"
  shows "selected_pairs (nonMaxSuppression boxes confidences t)
           = greedy (overlaps t) (sort_key (\<lambda>p. conf_key (snd p)) (zip boxes confidences))"
proof -
  let ?e = "\<lambda>k. (boxes ! k, confidences ! k)"
  let ?n = "length confidences"
  have "selected_pairs (nonMaxSuppression boxes confidences t)
      = map ?e (greedy (overlaps_at boxes t) (sorted_indices confidences))"
    by (simp add: selected_pairs_def nonMaxSuppression_greedy_indices [OF len] select_def comp_def)
  also have "\<dots> = greedy (overlaps t) (map ?e (sorted_indices confidences))"
    by (rule greedy_map) (simp add: overlaps_def overlaps_at_def)
  also have "map ?e (sorted_indices confidences)
      = map ?e (sort_key (\<lambda>k. conf_key (snd (?e k))) [0..<?n])"
    by (simp add: sorted_indices_sort_key [OF nan])
  also have "\<dots> = sort_key (\<lambda>p. conf_key (snd p)) (map ?e [0..<?n])"
    by (simp only: sort_key_map)
  also have "map ?e [0..<?n] = zip boxes confidences"
    using len by (rule zip_nth_map)
  finally show ?thesis .
qed




section \<open>What the loop of the parser computes\<close>

lemma mult84_less: "(i * 84 < (n::nat)) = (i < (n + 83) div 84)"
proof -
  have "(i < (n + 83) div 84) = (Suc i \<le> (n + 83) div 84)" by (simp add: Suc_le_eq)
  also have "\<dots> = (Suc i * 84 \<le> n + 83)" by (rule less_eq_div_iff_mult_less_eq) simp
  also have "\<dots> = (i * 84 < n)" by simp linarith
  finally show ?thesis by simp
qed

lemma loop_test: "(real i < real (length data) / real numValuesPerPrediction) = (i < numRecords data)"
proof -
  have "(real i < real (length data) / 84) = (real i * 84 < real (length data))"
    by (simp add: field_simps)
  also have "\<dots> = (i * 84 < length data)"
    using of_nat_less_iff [of "i * 84" "length data", where ?'a = real] by simp
  also have "\<dots> = (i < (length data + 83) div 84)" by (rule mult84_less)
  finally show ?thesis by (simp add: numValuesPerPrediction_def numRecords_def)
qed

lemma candidate_eq:
  "candidate data w h t m i = (if passes data t i then Some (scored data w h m i) else None)"
  by (simp add: candidate_def passes_def scored_def Let_def)

lemma parse_loop_eq:
  "parse_loop data w h t m i (bs, cs, ks)
     = (bs @ map fst (map (scored data w h m) (filter (passes data t) [i..<numRecords data])),
        cs @ map (\<lambda>c. fst (snd c)) (map (scored data w h m) (filter (passes data t) [i..<numRecords data])),
        ks @ map (\<lambda>c. snd (snd c)) (map (scored data w h m) (filter (passes data t) [i..<numRecords data])))"
proof (induction "numRecords data - i" arbitrary: i bs cs ks)
  case 0
  then have "\<not> i < numRecords data" by simp
  then show ?case by (subst parse_loop.simps) (simp add: loop_test)
next
  case (Suc n)
  then have lt: "i < numRecords data" and n: "n = numRecords data - (i + 1)" by simp_all
  have up: "[i..<numRecords data] = i # [i + 1..<numRecords data]"
    using lt by (simp add: upt_conv_Cons)
  show ?case
  proof (cases "passes data t i")
    case True
    obtain b c k where s: "scored data w h m i = (b, c, k)" by (cases "scored data w h m i")
    show ?thesis
      using lt True s Suc.hyps(1) [OF n, of "bs @ [b]" "cs @ [c]" "ks @ [k]"]
      by (subst parse_loop.simps) (simp add: loop_test candidate_eq up)
  next
    case False
    show ?thesis
      using lt False Suc.hyps(1) [OF n, of bs cs ks]
      by (subst parse_loop.simps) (simp add: loop_test candidate_eq up)
  qed
qed

lemma parse_loop_candidates:
  "parse_loop data w h t m 0 ([], [], [])
     = (map fst (candidates data w h t m),
        map (\<lambda>c. fst (snd c)) (candidates data w h t m),
        map (\<lambda>c. snd (snd c)) (candidates data w h t m))"
  by (simp add: parse_loop_eq candidates_def)

lemma parseYOLOv8Output_eq:
  "parseYOLOv8Output data w h t iou m
     = map (\<lambda>s. \<lparr>box = selection.box s, confidence = selection.confidence s,
                  classId = map (\<lambda>c. snd (snd c)) (candidates data w h t m) ! originalIndex s\<rparr>)
         (nonMaxSuppression (map fst (candidates data w h t m))
            (map (\<lambda>c. fst (snd c)) (candidates data w h t m)) iou)"
  by (simp add: parseYOLOv8Output_def parse_loop_candidates)

lemma candidates_nth:
  assumes "k < length (candidates data w h t m)"
  shows "\<exists>i < numRecords data. passes data t i \<and> candidates data w h t m ! k = scored data w h m i"
proof -
  let ?F = "filter (passes data t) [0..<numRecords data]"
  from assms have k: "k < length ?F" by (simp add: candidates_def)
  then have "?F ! k \<in> set ?F" by (rule nth_mem)
  then have "?F ! k < numRecords data \<and> passes data t (?F ! k)" by auto
  moreover have "candidates data w h t m ! k = scored data w h m (?F ! k)"
    using k by (simp add: candidates_def)
  ultimately show ?thesis by blast
qed

lemma detection_origin:
  assumes "d \<in> set (parseYOLOv8Output data w h t iou m)"
  shows "\<exists>i < numRecords data. passes data t i \<and>
          d = \<lparr>box = map_box (predictionSlice data i) w h m,
               confidence = totalConfidence_of (predictionSlice data i),
               classId = classId_of (predictionSlice data i)\<rparr>"
proof -
  let ?C = "candidates data w h t m"
  let ?bs = "map fst ?C" and ?cs = "map (\<lambda>c. fst (snd c)) ?C" and ?ks = "map (\<lambda>c. snd (snd c)) ?C"
  from assms obtain s where s: "s \<in> set (nonMaxSuppression ?bs ?cs iou)"
    and d: "d = \<lparr>box = selection.box s, confidence = selection.confidence s,
                  classId = ?ks ! originalIndex s\<rparr>"
    by (auto simp: parseYOLOv8Output_eq)
  have len: "length ?bs = length ?cs" by simp
  from nms_indices_in_range [OF len s]
  have k: "originalIndex s < length ?C"
    and s': "selection.box s = ?bs ! originalIndex s" "selection.confidence s = ?cs ! originalIndex s"
    by simp_all
  from candidates_nth [OF k] obtain i where i: "i < numRecords data" "passes data t i"
    and c: "?C ! originalIndex s = scored data w h m i" by blast
  have "d = \<lparr>box = map_box (predictionSlice data i) w h m,
               confidence = totalConfidence_of (predictionSlice data i),
               classId = classId_of (predictionSlice data i)\<rparr>"
    using d s' k c by (simp add: scored_def)
  with i show ?thesis by blast
qed

section \<open>Raising the confidence threshold\<close>

lemma js_gt_not_NaN: "js_gt a b \<Longrightarrow> a \<noteq> NaN \<and> b \<noteq> NaN"
  by (cases a; cases b) auto

lemma js_gt_le_trans: "js_gt c t2 \<Longrightarrow> js_le t1 t2 \<Longrightarrow> js_gt c t1"
  by (cases c; cases t1; cases t2) auto

lemma conf_key_le_js_gt: "conf_key a \<le> conf_key b \<Longrightarrow> js_gt b t \<Longrightarrow> js_gt a t"
  by (cases a; cases b; cases t) auto

lemma candidates_conf_not_NaN: "NaN \<notin> set (map (\<lambda>c. fst (snd c)) (candidates data w h t m))"
proof
  assume "NaN \<in> set (map (\<lambda>c. fst (snd c)) (candidates data w h t m))"
  then obtain i where "passes data t i" and "totalConfidence_of (predictionSlice data i) = NaN"
    by (auto simp: candidates_def scored_def)
  then show False by (auto simp: passes_def dest: js_gt_not_NaN)
qed

lemma length_parseYOLOv8Output:
  "length (parseYOLOv8Output data w h t iou m)
     = length (greedy (overlaps iou) (sort_key (\<lambda>p. conf_key (snd p)) (candidate_pairs data w h t m)))"
proof -
  let ?C = "candidates data w h t m"
  let ?bs = "map fst ?C" and ?cs = "map (\<lambda>c. fst (snd c)) ?C"
  have len: "length ?bs = length ?cs" by simp
  have z: "zip ?bs ?cs = candidate_pairs data w h t m"
    by (simp add: candidate_pairs_def zip_map_map zip_same_conv_map)
  have "length (parseYOLOv8Output data w h t iou m) = length (selected_pairs (nonMaxSuppression ?bs ?cs iou))"
    by (simp add: parseYOLOv8Output_eq selected_pairs_def)
  also have "selected_pairs (nonMaxSuppression ?bs ?cs iou)
      = greedy (overlaps iou) (sort_key (\<lambda>p. conf_key (snd p)) (zip ?bs ?cs))"
    using len candidates_conf_not_NaN by (rule selected_pairs_nonMaxSuppression)
  finally show ?thesis by (simp only: z)
qed

lemma candidate_pairs_raise:
  assumes "js_le t1 t2"
  shows "candidate_pairs data w h t2 m = filter (\<lambda>p. js_gt (snd p) t2) (candidate_pairs data w h t1 m)"
proof -
  let ?N = "[0..<numRecords data]"
  let ?g = "\<lambda>i. (map_box (predictionSlice data i) w h m, totalConfidence_of (predictionSlice data i))"
  have p: "candidate_pairs data w h t m = map ?g (filter (passes data t) ?N)" for t
    by (simp add: candidate_pairs_def candidates_def scored_def comp_def)
  have "filter (passes data t2) ?N = filter (passes data t2) (filter (passes data t1) ?N)"
    using assms by (auto simp: passes_def intro!: filter_cong dest: js_gt_le_trans)
  also have "\<dots> = filter (\<lambda>i. js_gt (snd (?g i)) t2) (filter (passes data t1) ?N)"
    by (rule filter_cong) (auto simp: passes_def)
  finally show ?thesis by (simp add: p filter_map comp_def)
qed

text \<open>
  C4. For a fixed tensor, fixed image dimensions, \<open>iouThreshold\<close> and
  \<open>modelInputSize\<close>, and two confidence thresholds \<open>t1 <= t2\<close>, the call with
  \<open>t2\<close> returns no more Detections than the call with \<open>t1\<close>: the candidates
  above \<open>t2\<close> are a prefix of the sorted candidates above \<open>t1\<close>, and greedy
  selection on a prefix selects a prefix.
\<close>

theorem threshold_monotone:
  assumes "js_le t1 t2"
  shows "length (parseYOLOv8Output outputTensor originalWidth originalHeight t2 iouThreshold modelInputSize)
         \<le> length (parseYOLOv8Output outputTensor originalWidth originalHeight t1 iouThreshold modelInputSize)"
proof -
  let ?key = "\<lambda>p::bbox \<times> jsnum. conf_key (snd p)"
  let ?P = "\<lambda>p::bbox \<times> jsnum. js_gt (snd p) t2"
  let ?S1 = "sort_key ?key (candidate_pairs outputTensor originalWidth originalHeight t1 modelInputSize)"
  have "sort_key ?key (candidate_pairs outputTensor originalWidth originalHeight t2 modelInputSize)
      = filter ?P ?S1"
    by (simp only: candidate_pairs_raise [OF assms] filter_sort)
  also have "\<dots> = takeWhile ?P ?S1"
  proof (rule filter_takeWhile_sorted)
    show "sorted (map ?key ?S1)" by (rule sorted_sort_key)
    show "?P x" if "?key x \<le> ?key y" and "?P y" for x y
      using that by (rule conf_key_le_js_gt)
  qed
  finally show ?thesis
    by (simp only: length_parseYOLOv8Output length_greedy_takeWhile)
qed

text \<open>The statement at a tensor of two records with confidences \<open>1\<close> and
  \<open>0.5\<close> and disjoint boxes: two Detections above \<open>0.25\<close>, one above \<open>0.75\<close>.\<close>

theorem threshold_monotone_witness:
  "js_le (Num (1 / 4)) (Num (3 / 4))
   \<and> length (parseYOLOv8Output
        ([Num (1 / 4), Num (1 / 4), Num (1 / 8), Num (1 / 8), Num 1, Num 1] @ replicate 78 (Num 0)
         @ [Num (3 / 4), Num (3 / 4), Num (1 / 8), Num (1 / 8), Num 1, Num (1 / 2)] @ replicate 78 (Num 0))
        (Num 1280) (Num 960) (Num (3 / 4)) (Num (45 / 100)) (Num 640))
     \<le> length (parseYOLOv8Output
        ([Num (1 / 4), Num (1 / 4), Num (1 / 8), Num (1 / 8), Num 1, Num 1] @ replicate 78 (Num 0)
         @ [Num (3 / 4), Num (3 / 4), Num (1 / 8), Num (1 / 8), Num 1, Num (1 / 2)] @ replicate 78 (Num 0))
        (Num 1280) (Num 960) (Num (1 / 4)) (Num (45 / 100)) (Num 640))
   \<and> length (parseYOLOv8Output
        ([Num (1 / 4), Num (1 / 4), Num (1 / 8), Num (1 / 8), Num 1, Num 1] @ replicate 78 (Num 0)
         @ [Num (3 / 4), Num (3 / 4), Num (1 / 8), Num (1 / 8), Num 1, Num (1 / 2)] @ replicate 78 (Num 0))
        (Num 1280) (Num 960) (Num (3 / 4)) (Num (45 / 100)) (Num 640)) = 1
   \<and> length (parseYOLOv8Output
        ([Num (1 / 4), Num (1 / 4), Num (1 / 8), Num (1 / 8), Num 1, Num 1] @ replicate 78 (Num 0)
         @ [Num (3 / 4), Num (3 / 4), Num (1 / 8), Num (1 / 8), Num 1, Num (1 / 2)] @ replicate 78 (Num 0))
        (Num 1280) (Num 960) (Num (1 / 4)) (Num (45 / 100)) (Num 640)) = 2"
proof -
  let ?T = "[Num (1 / 4), Num (1 / 4), Num (1 / 8), Num (1 / 8), Num 1, Num 1] @ replicate 78 (Num 0)
         @ [Num (3 / 4), Num (3 / 4), Num (1 / 8), Num (1 / 8), Num 1, Num (1 / 2)] @ replicate 78 (Num 0)"
  have h: "js_le (Num (1 / 4)) (Num (3 / 4))" by simp
  have hi: "length (parseYOLOv8Output ?T (Num 1280) (Num 960) (Num (3 / 4)) (Num (45 / 100)) (Num 640)) = 1"
    by code_simp
  have lo: "length (parseYOLOv8Output ?T (Num 1280) (Num 960) (Num (1 / 4)) (Num (45 / 100)) (Num 640)) = 2"
    by code_simp
  from threshold_monotone [OF h, of ?T "Num 1280" "Num 960" "Num (45 / 100)" "Num 640"] h hi lo
  show ?thesis by blast
qed

section \<open>The class of the Detections\<close>

lemma length_CLASS_LABELS: "length CLASS_LABELS = 80"
  by (simp add: CLASS_LABELS_def)

lemma person_only_first: "\<exists>rest. CLASS_LABELS = ''person'' # rest \<and> ''person'' \<notin> set rest"
  by (simp add: CLASS_LABELS_def)

lemma person_nth: "k < length CLASS_LABELS \<Longrightarrow> (CLASS_LABELS ! k = ''person'') = (k = 0)"
proof -
  assume k: "k < length CLASS_LABELS"
  obtain rest where r: "CLASS_LABELS = ''person'' # rest" "''person'' \<notin> set rest"
    using person_only_first by blast
  show ?thesis
  proof (cases k)
    case 0
    then show ?thesis unfolding r(1) by simp
  next
    case (Suc j)
    with k have "rest ! j \<in> set rest" unfolding r(1) by simp
    with r(2) Suc show ?thesis unfolding r(1) by auto
  qed
qed

lemma person_index: "(array_get CLASS_LABELS k = Some ''person'') = (k = 0)"
proof (cases "0 \<le> k \<and> nat k < length CLASS_LABELS")
  case True
  then have "(array_get CLASS_LABELS k = Some ''person'') = (nat k = 0)"
    by (simp add: array_get_def person_nth)
  with True show ?thesis by auto
next
  case False
  then show ?thesis by (auto simp: array_get_def length_CLASS_LABELS)
qed

text \<open>
  C9. Every Detection that \<open>parseYOLOv8Output\<close> returns has \<open>classId = 0\<close>, the
  index of \<open>'person'\<close> in \<open>CLASS_LABELS\<close>: the test of the loop body compares the
  label of the class with \<open>'person'\<close>, there is no parameter for another class, and
  the final \<open>map\<close> reads the class back at an index that is in range.
\<close>

theorem detections_are_persons:
  "\<forall>d \<in> set (parseYOLOv8Output outputTensor originalWidth originalHeight confidenceThreshold iouThreshold modelInputSize).
     classId d = 0 \<and> array_get CLASS_LABELS (classId d) = Some ''person''"
proof
  fix d
  assume "d \<in> set (parseYOLOv8Output outputTensor originalWidth originalHeight confidenceThreshold iouThreshold modelInputSize)"
  then obtain i where "passes outputTensor confidenceThreshold i"
    and "classId d = classId_of (predictionSlice outputTensor i)"
    by (auto dest!: detection_origin)
  then show "classId d = 0 \<and> array_get CLASS_LABELS (classId d) = Some ''person''"
    by (simp add: passes_def person_index)
qed

text \<open>C9 at a tensor of two records: the best class of the first is class 2, that of the
  second class 0, and the one Detection returned is the second record with
  \<open>classId = 0\<close>.\<close>

theorem detections_are_persons_witness:
  "parseYOLOv8Output
     ([Num (1 / 2), Num (1 / 2), Num (1 / 4), Num (1 / 4), Num 1, Num (1 / 2), Num (3 / 4), Num 1] @ replicate 76 (Num 0)
      @ [Num (1 / 2), Num (1 / 2), Num (1 / 4), Num (1 / 4), Num 1, Num (1 / 2), Num (1 / 4)] @ replicate 77 (Num 0))
     (Num 1280) (Num 960) (Num (25 / 100)) (Num (45 / 100)) (Num 640)
     = [\<lparr>box = (Num 480, Num 360, Num 800, Num (4801875 / 10000)), confidence = Num (1 / 2), classId = 0\<rparr>]
   \<and> classId \<lparr>box = (Num 480, Num 360, Num 800, Num (4801875 / 10000)), confidence = Num (1 / 2), classId = 0\<rparr> = 0"
proof -
  let ?T = "[Num (1 / 2), Num (1 / 2), Num (1 / 4), Num (1 / 4), Num 1, Num (1 / 2), Num (3 / 4), Num 1] @ replicate 76 (Num 0)
      @ [Num (1 / 2), Num (1 / 2), Num (1 / 4), Num (1 / 4), Num 1, Num (1 / 2), Num (1 / 4)] @ replicate 77 (Num 0)"
  let ?d = "\<lparr>box = (Num 480, Num 360, Num 800, Num (4801875 / 10000)), confidence = Num (1 / 2), classId = 0\<rparr>"
  have e: "parseYOLOv8Output ?T (Num 1280) (Num 960) (Num (25 / 100)) (Num (45 / 100)) (Num 640) = [?d]"
    by code_simp
  then have "?d \<in> set (parseYOLOv8Output ?T (Num 1280) (Num 960) (Num (25 / 100)) (Num (45 / 100)) (Num 640))"
    by simp
  with detections_are_persons [of ?T "Num 1280" "Num 960" "Num (25 / 100)" "Num (45 / 100)" "Num 640"]
  have "classId ?d = 0" by blast
  with e show ?thesis by blast
qed

section \<open>Tensors that are not a whole number of records\<close>

lemma js_mul_NaN_right [simp]: "js_mul a NaN = NaN"
  by (cases a) simp_all

lemma numRecords_short: "length data < 84 \<Longrightarrow> numRecords data \<le> 1"
  by (simp add: numRecords_def)

lemma predictionSlice_0: "length data \<le> 84 \<Longrightarrow> predictionSlice data 0 = data"
  by (simp add: predictionSlice_def numValuesPerPrediction_def)

lemma totalConfidence_short: "length slice < 6 \<Longrightarrow> totalConfidence_of slice = NaN"
proof -
  assume l: "length slice < 6"
  show ?thesis
  proof (cases "length slice < 5")
    case True
    then show ?thesis by (simp add: totalConfidence_of_def array_get_def ToNumber_def Let_def)
  next
    case False
    with l have "class_confs_of slice = []" by (simp add: class_confs_of_def)
    then show ?thesis
      by (simp add: totalConfidence_of_def classId_of_def indexOf_def Math_max_def array_get_def
          ToNumber_def Let_def)
  qed
qed

lemma nonMaxSuppression_Nil [simp]: "nonMaxSuppression [] cs t = []"
  by (simp add: nonMaxSuppression_def)

text \<open>
  C10, as the code has it. The loop runs while \<open>i < data.length / 84\<close>, a quotient of
  numbers, so a tensor of 1 to 83 values is decoded as one short record. With fewer than
  6 values the record has no objectness or no class score, its confidence is \<open>NaN\<close>
  and nothing passes the test: the result is the empty list, and nothing is raised.
\<close>

theorem short_tensor_empty:
  assumes "length outputTensor < 6"
  shows "parseYOLOv8Output outputTensor originalWidth originalHeight confidenceThreshold iouThreshold modelInputSize = []"
proof -
  have "\<not> passes outputTensor confidenceThreshold i" if "i < numRecords outputTensor" for i
  proof -
    from assms that have "i = 0" using numRecords_short [of outputTensor] by simp
    moreover have "totalConfidence_of (predictionSlice outputTensor 0) = NaN"
      using assms by (simp add: predictionSlice_0 totalConfidence_short)
    ultimately show ?thesis by (simp add: passes_def)
  qed
  then have "filter (passes outputTensor confidenceThreshold) [0..<numRecords outputTensor] = []"
    by (simp add: filter_empty_conv)
  then show ?thesis by (simp add: parseYOLOv8Output_eq candidates_def)
qed

text \<open>The statement at a tensor of five values.\<close>

theorem short_tensor_empty_witness:
  "length [Num (1 / 2), Num (1 / 2), Num (1 / 4), Num (1 / 4), Num 1] < 6
   \<and> parseYOLOv8Output [Num (1 / 2), Num (1 / 2), Num (1 / 4), Num (1 / 4), Num 1]
        (Num 1280) (Num 960) (Num (25 / 100)) (Num (45 / 100)) (Num 640) = []"
  using short_tensor_empty [of "[Num (1 / 2), Num (1 / 2), Num (1 / 4), Num (1 / 4), Num 1]"
      "Num 1280" "Num 960" "Num (25 / 100)" "Num (45 / 100)" "Num 640"]
  by simp

text \<open>C10, as the claim states it, fails: a tensor of six values, fewer than 84, is
  decoded as one record with one class score and yields a Detection.\<close>

theorem short_tensor_detection_counterexample:
  "length [Num (1 / 2), Num (1 / 2), Num (1 / 4), Num (1 / 4), Num 1, Num 1] < 84
   \<and> parseYOLOv8Output [Num (1 / 2), Num (1 / 2), Num (1 / 4), Num (1 / 4), Num 1, Num 1]
        (Num 1280) (Num 960) (Num (25 / 100)) (Num (45 / 100)) (Num 640)
      = [\<lparr>box = (Num 480, Num 360, Num 800, Num (4801875 / 10000)), confidence = Num 1, classId = 0\<rparr>]"
  by code_simp

text \<open>
  C2, as the code has it. \<open>parseYOLOv8Output\<close> makes no check on the length of the
  tensor and has no failure: for a tensor of any length it makes
  \<open>\<lceil>length / 84\<rceil>\<close> passes of its loop (lemma \<open>loop_test\<close>), the last one
  on a record shorter than 84 values when the length is not a multiple of 84, and returns
  a list of at most that many Detections. The number of values per record is the
  constant 84.
\<close>

theorem detections_at_most_records:
  "length (parseYOLOv8Output outputTensor originalWidth originalHeight confidenceThreshold iouThreshold modelInputSize)
     \<le> (length outputTensor + 83) div 84"
proof -
  let ?P = "candidate_pairs outputTensor originalWidth originalHeight confidenceThreshold modelInputSize"
  have "length (parseYOLOv8Output outputTensor originalWidth originalHeight confidenceThreshold iouThreshold modelInputSize)
      \<le> length (sort_key (\<lambda>p. conf_key (snd p)) ?P)"
    by (simp only: length_parseYOLOv8Output length_greedy_le)
  also have "\<dots> = length (filter (passes outputTensor confidenceThreshold) [0..<numRecords outputTensor])"
    by (simp add: candidate_pairs_def candidates_def)
  also have "\<dots> \<le> length [0..<numRecords outputTensor]" by (rule length_filter_le)
  finally show ?thesis by (simp add: numRecords_def)
qed

text \<open>The statement at a tensor of seven values: one pass of the loop, one Detection at
  most.\<close>

theorem detections_at_most_records_witness:
  "length (parseYOLOv8Output [Num (1 / 2), Num (1 / 2), Num (1 / 4), Num (1 / 4), Num 1, Num 1, Num (1 / 2)]
       (Num 1280) (Num 960) (Num (25 / 100)) (Num (45 / 100)) (Num 640)) \<le> 1"
  using detections_at_most_records
    [of "[Num (1 / 2), Num (1 / 2), Num (1 / 4), Num (1 / 4), Num 1, Num 1, Num (1 / 2)]"
      "Num 1280" "Num 960" "Num (25 / 100)" "Num (45 / 100)" "Num 640"]
  by simp

text \<open>C2, as the claim states it, fails: a tensor of seven values, not a multiple of
  84, gives no error but a list with one Detection.\<close>

theorem indivisible_tensor_counterexample:
  "length [Num (1 / 2), Num (1 / 2), Num (1 / 4), Num (1 / 4), Num 1, Num 1, Num (1 / 2)] mod 84 \<noteq> 0
   \<and> parseYOLOv8Output [Num (1 / 2), Num (1 / 2), Num (1 / 4), Num (1 / 4), Num 1, Num 1, Num (1 / 2)]
        (Num 1280) (Num 960) (Num (25 / 100)) (Num (45 / 100)) (Num 640)
      = [\<lparr>box = (Num 480, Num 360, Num 800, Num (4801875 / 10000)), confidence = Num 1, classId = 0\<rparr>]"
  by code_simp

section \<open>Degenerate boxes\<close>

lemma single_record:
  assumes len: "0 < length r" "length r \<le> 84" and p: "passes r t 0"
  shows "parseYOLOv8Output r w h t iou m
           = [\<lparr>box = map_box r w h m, confidence = totalConfidence_of r, classId = classId_of r\<rparr>]"
proof -
  have "0 < numRecords r" and "\<not> 1 < numRecords r"
    using len mult84_less [of 0 "length r"] mult84_less [of 1 "length r"]
    by (simp_all add: numRecords_def)
  then have n: "numRecords r = 1" by simp
  have s: "predictionSlice r 0 = r" using len by (simp add: predictionSlice_0)
  have c: "candidates r w h t m = [(map_box r w h m, totalConfidence_of r, classId_of r)]"
    using p by (simp add: candidates_def n scored_def s)
  show ?thesis
    by (simp add: parseYOLOv8Output_eq c nonMaxSuppression_def sorted_indices_def Array_sort_def)
qed

text \<open>
  C3, as the code has it. The coordinate mapper tests neither the width nor the height:
  a tensor of one full record whose combined confidence exceeds the threshold and whose
  best class is class 0 yields exactly one Detection, with the mapped box, whatever the
  values of \<open>w_norm\<close> and \<open>h_norm\<close> are. Candidates are dropped, silently, by the
  confidence and class test and by the suppression only.
\<close>

theorem mapper_keeps_degenerate:
  assumes "length outputTensor = 84"
    and "js_gt (totalConfidence_of outputTensor) confidenceThreshold"
    and "classId_of outputTensor = 0"
  shows "parseYOLOv8Output outputTensor originalWidth originalHeight confidenceThreshold iouThreshold modelInputSize
           = [\<lparr>box = map_box outputTensor originalWidth originalHeight modelInputSize,
               confidence = totalConfidence_of outputTensor, classId = 0\<rparr>]"
proof -
  have "passes outputTensor confidenceThreshold 0"
    using assms by (simp add: passes_def predictionSlice_0 person_index)
  with assms single_record [of outputTensor confidenceThreshold originalWidth originalHeight iouThreshold modelInputSize]
  show ?thesis by simp
qed

text \<open>C3, as the claim states it, fails: a record of width \<open>-0.25\<close> and height
  \<open>0\<close> (\<open>w_px = -160\<close>, \<open>h_px = 0\<close>) is returned, as the box
  \<open>[800, 480, 480, 480]\<close>.\<close>

theorem degenerate_box_counterexample:
  "parseYOLOv8Output
     ([Num (1 / 2), Num (1 / 2), Num (- 1 / 4), Num 0, Num 1, Num 1] @ replicate 78 (Num 0))
     (Num 1280) (Num 960) (Num (25 / 100)) (Num (45 / 100)) (Num 640)
   = [\<lparr>box = (Num 800, Num 480, Num 480, Num 480), confidence = Num 1, classId = 0\<rparr>]"
  by code_simp

text \<open>The statement at that record.\<close>

theorem mapper_keeps_degenerate_witness:
  "parseYOLOv8Output
     ([Num (1 / 2), Num (1 / 2), Num (- 1 / 4), Num 0, Num 1, Num 1] @ replicate 78 (Num 0))
     (Num 1280) (Num 960) (Num (25 / 100)) (Num (45 / 100)) (Num 640)
   = [\<lparr>box = map_box ([Num (1 / 2), Num (1 / 2), Num (- 1 / 4), Num 0, Num 1, Num 1] @ replicate 78 (Num 0))
              (Num 1280) (Num 960) (Num 640),
       confidence = Num 1, classId = 0\<rparr>]"
proof -
  let ?T = "[Num (1 / 2), Num (1 / 2), Num (- 1 / 4), Num 0, Num 1, Num 1] @ replicate 78 (Num 0)"
  have l: "length ?T = 84" by simp
  have c: "totalConfidence_of ?T = Num 1" by code_simp
  have g: "js_gt (totalConfidence_of ?T) (Num (25 / 100))" unfolding c by simp
  have k: "classId_of ?T = 0" by code_simp
  from mapper_keeps_degenerate [OF l g k, of "Num 1280" "Num 960" "Num (45 / 100)" "Num 640"] c
  show ?thesis by simp
qed

section \<open>The shape of the Detections\<close>




lemma array_get_nat: "n < length xs \<Longrightarrow> array_get xs (int n) = Some (xs ! n)"
  by (simp add: array_get_def)






section \<open>The scorer\<close>

lemma js_le_refl: "a \<noteq> NaN \<Longrightarrow> js_le a a"
  by (cases a) auto

lemma js_le_trans: "js_le a b \<Longrightarrow> js_le b c \<Longrightarrow> js_le a c"
  by (cases a; cases b; cases c) auto

lemma js_max2_props:
  assumes "a \<noteq> NaN" and "b \<noteq> NaN"
  shows "js_max2 a b \<noteq> NaN" and "js_max2 a b = a \<or> js_max2 a b = b"
    and "js_le a (js_max2 a b)" and "js_le b (js_max2 a b)"
  using assms by (cases a; cases b; auto simp: js_max2_def)+

lemma foldl_js_max2:
  assumes "acc \<noteq> NaN" and "NaN \<notin> set xs"
  shows "foldl js_max2 acc xs \<noteq> NaN \<and> foldl js_max2 acc xs \<in> insert acc (set xs)
         \<and> js_le acc (foldl js_max2 acc xs) \<and> (\<forall>x \<in> set xs. js_le x (foldl js_max2 acc xs))"
  using assms
proof (induction xs arbitrary: acc)
  case Nil
  then show ?case by (simp add: js_le_refl)
next
  case (Cons x xs)
  let ?a = "js_max2 acc x"
  from Cons.prems have x: "x \<noteq> NaN" and xs: "NaN \<notin> set xs" by auto
  note m = js_max2_props [OF Cons.prems(1) x]
  from Cons.IH [OF m(1) xs]
  have r: "foldl js_max2 ?a xs \<noteq> NaN" "foldl js_max2 ?a xs \<in> insert ?a (set xs)"
    "js_le ?a (foldl js_max2 ?a xs)" "\<forall>y \<in> set xs. js_le y (foldl js_max2 ?a xs)"
    by simp_all
  from r(2) m(2) have "foldl js_max2 ?a xs \<in> insert acc (set (x # xs))" by auto
  moreover from m(3) r(3) have "js_le acc (foldl js_max2 ?a xs)" by (rule js_le_trans)
  moreover from m(4) r(3) have "js_le x (foldl js_max2 ?a xs)" by (rule js_le_trans)
  ultimately show ?case using r(1) r(4) by simp
qed

lemma js_le_NInf: "js_le x NInf \<Longrightarrow> x = NInf"
  by (cases x) auto

lemma Math_max_props:
  assumes "xs \<noteq> []" and "NaN \<notin> set xs"
  shows "Math_max xs \<in> set xs" and "\<forall>x \<in> set xs. js_le x (Math_max xs)"
proof -
  from foldl_js_max2 [OF _ assms(2), of NInf]
  have r: "Math_max xs \<in> insert NInf (set xs)" and u: "\<forall>x \<in> set xs. js_le x (Math_max xs)"
    by (simp_all add: Math_max_def)
  show "\<forall>x \<in> set xs. js_le x (Math_max xs)" by (rule u)
  show "Math_max xs \<in> set xs"
  proof (cases "Math_max xs = NInf")
    case True
    from assms(1) obtain x where x: "x \<in> set xs" by (cases xs) auto
    with u True have "x = NInf" by (auto dest: js_le_NInf)
    with x True show ?thesis by simp
  next
    case False
    with r show ?thesis by simp
  qed
qed

lemma js_eq_iff: "a \<noteq> NaN \<Longrightarrow> js_eq a b = (a = b)"
  by (cases a; cases b) auto

lemma indexOf_from_first:
  assumes "v \<in> set xs" and "NaN \<notin> set xs"
  shows "\<exists>j < length xs. indexOf_from xs v k = k + int j \<and> xs ! j = v \<and> (\<forall>i < j. xs ! i \<noteq> v)"
  using assms
proof (induction xs arbitrary: k)
  case Nil
  then show ?case by simp
next
  case (Cons x xs)
  from Cons.prems have x: "x \<noteq> NaN" by auto
  show ?case
  proof (cases "x = v")
    case True
    with x have "indexOf_from (x # xs) v k = k + int 0 \<and> (x # xs) ! 0 = v" by (simp add: js_eq_iff)
    then show ?thesis by blast
  next
    case False
    with Cons.prems have "v \<in> set xs" "NaN \<notin> set xs" by auto
    from Cons.IH [OF this, of "k + 1"] obtain j where j: "j < length xs"
      "indexOf_from xs v (k + 1) = k + 1 + int j" "xs ! j = v" "\<forall>i < j. xs ! i \<noteq> v" by blast
    have "\<forall>i < Suc j. (x # xs) ! i \<noteq> v"
      using False j(4) by (auto simp: nth_Cons split: nat.splits)
    with j False x have "Suc j < length (x # xs) \<and> indexOf_from (x # xs) v k = k + int (Suc j)
        \<and> (x # xs) ! Suc j = v \<and> (\<forall>i < Suc j. (x # xs) ! i \<noteq> v)"
      by (simp add: js_eq_iff)
    then show ?thesis by blast
  qed
qed

lemma js_le_neq_gt: "js_le a b \<Longrightarrow> a \<noteq> b \<Longrightarrow> js_gt b a"
  by (cases a; cases b) auto

text \<open>
  What the scorer computes on a record with at least one class score, none of them
  \<open>NaN\<close>: \<open>classId\<close> is the first position of the largest class score,
  the combined confidence is the objectness times that score, and (next lemma) the
  record is kept exactly when the combined confidence is strictly above the threshold
  and the class is class 0, \<open>'person'\<close>.
\<close>

lemma scorer_semantics:
  assumes ne: "5 < length slice" and nan: "NaN \<notin> set (class_confs_of slice)"
  shows "\<exists>k < length (class_confs_of slice).
           classId_of slice = int k
           \<and> (\<forall>j < length (class_confs_of slice). js_le (class_confs_of slice ! j) (class_confs_of slice ! k))
           \<and> (\<forall>j < k. js_gt (class_confs_of slice ! k) (class_confs_of slice ! j))
           \<and> totalConfidence_of slice = js_mul (slice ! 4) (class_confs_of slice ! k)"
proof -
  let ?cs = "class_confs_of slice"
  from ne have cs: "?cs \<noteq> []" by (simp add: class_confs_of_def)
  note mx = Math_max_props [OF cs nan]
  from indexOf_from_first [OF mx(1) nan, of 0] obtain k where k: "k < length ?cs"
    "indexOf ?cs (Math_max ?cs) = int k" "?cs ! k = Math_max ?cs" "\<forall>i < k. ?cs ! i \<noteq> Math_max ?cs"
    by (auto simp: indexOf_def)
  have id: "classId_of slice = int k" using k(2) by (simp add: classId_of_def Let_def)
  have le: "\<forall>j < length ?cs. js_le (?cs ! j) (?cs ! k)" using mx(2) k(3) by simp
  have first: "\<forall>j < k. js_gt (?cs ! k) (?cs ! j)"
  proof (intro allI impI)
    fix j assume j: "j < k"
    with k(1) le have "js_le (?cs ! j) (?cs ! k)" by simp
    moreover from j k(3,4) have "?cs ! j \<noteq> ?cs ! k" by simp
    ultimately show "js_gt (?cs ! k) (?cs ! j)" by (rule js_le_neq_gt)
  qed
  have "array_get slice 4 = Some (slice ! 4)" using ne by (simp add: array_get_def)
  then have tot: "totalConfidence_of slice = js_mul (slice ! 4) (?cs ! k)"
    using k(1) by (simp add: totalConfidence_of_def id array_get_nat ToNumber_def Let_def)
  from k(1) id le first tot show ?thesis by blast
qed

lemma candidate_retained:
  "candidate data w h t m i =
     (if js_gt (totalConfidence_of (predictionSlice data i)) t \<and> classId_of (predictionSlice data i) = 0
      then Some (map_box (predictionSlice data i) w h m, totalConfidence_of (predictionSlice data i), 0)
      else None)"
  by (auto simp: candidate_def Let_def person_index)

text \<open>
  C8. The class scores of a record are what follows its first five values. A record is
  84 values long, so it has 79 class scores, \<open>class_conf_0\<close> to \<open>class_conf_78\<close>,
  not the 80 of the claim and of the comments in the source
  (\<open>4 bbox + 1 obj_conf + 80 class_confs\<close>). On a tensor laid out as those comments
  say, five values and then 80 class scores, the largest of them the last, the scorer
  does not read the last score: it takes class 0 for the best class and a Detection is
  returned.
\<close>

theorem scorer_reads_79_class_scores:
  "length ([Num (1 / 2), Num (1 / 2), Num (1 / 4), Num (1 / 4), Num 1, Num 1] @ replicate 78 (Num 0)) = 84
   \<and> length (class_confs_of (predictionSlice
        ([Num (1 / 2), Num (1 / 2), Num (1 / 4), Num (1 / 4), Num 1, Num 1] @ replicate 78 (Num 0)) 0)) = 79
   \<and> length ([Num (1 / 2), Num (1 / 2), Num (1 / 4), Num (1 / 4), Num 1, Num (1 / 2)] @ replicate 78 (Num 0) @ [Num 1]) = 85
   \<and> classId_of (predictionSlice
        ([Num (1 / 2), Num (1 / 2), Num (1 / 4), Num (1 / 4), Num 1, Num (1 / 2)] @ replicate 78 (Num 0) @ [Num 1]) 0) = 0
   \<and> parseYOLOv8Output
        ([Num (1 / 2), Num (1 / 2), Num (1 / 4), Num (1 / 4), Num 1, Num (1 / 2)] @ replicate 78 (Num 0) @ [Num 1])
        (Num 1280) (Num 960) (Num (25 / 100)) (Num (45 / 100)) (Num 640)
      = [\<lparr>box = (Num 480, Num 360, Num 800, Num (4801875 / 10000)), confidence = Num (1 / 2), classId = 0\<rparr>]"
  by code_simp

end
